theory Spec2Isabelle
  imports Main "HOL-Library.Char_ord" "HOL-Library.List_Lexorder"
begin

section \<open>Data model of the operator console\<close>

text \<open>
  The \<open>Escalation\<close> interface of \<open>EscalationDashboard.tsx\<close>. The later variant of the
  component adds the optional fields \<open>ai_insights\<close> and \<open>insights_generated_at\<close>; the
  earlier variants never read or write them, so one record serves all variants.
  Optional fields (\<open>human_response?\<close>) are options. Timestamps are ISO strings, as in
  the source; strings are compared lexicographically.
\<close>

datatype urgency_level = Low | Medium | High | Critical

datatype escalation_status = Pending | Resolved

record transcript_entry =
  role :: string
  content :: string
  timestamp :: string

record Escalation =
  escalation_id :: string
  room_name :: string
  user_id :: string
  reason :: string
  urgency :: urgency_level
  decision_type :: string
  context_details :: string
  recent_transcript :: "transcript_entry list"
  status :: escalation_status
  created_at :: string
  human_response :: "string option"
  responded_at :: "string option"
  ai_insights :: "string option"
  insights_generated_at :: "string option"

text \<open>
  The React state of the component: the four \<open>useState\<close> cells that the handlers
  below read or write.
\<close>

record dashboard =
  escalations :: "Escalation list"
  selectedEscalation :: "Escalation option"
  responseText :: string
  isSubmitting :: bool

text \<open>
  A parsed WebSocket message, discriminated by \<open>data.type\<close>. \<open>data.escalations\<close> may be
  absent (\<open>data.escalations || []\<close>); a message of any other type, or one that does not
  parse, is \<open>OtherMessage\<close>.
\<close>

datatype ws_message =
    InitialState "Escalation list option"
  | NewEscalation Escalation
  | EscalationResolved string Escalation
  | InsightsUpdated string Escalation
  | OtherMessage string

section \<open>The WebSocket message handler\<close>

text \<open>
  \<open>replace_by_id i esc prev\<close> is
  \<open>prev.map((e) => e.escalation_id === i ? esc : e)\<close>.
\<close>

definition replace_by_id :: "string \<Rightarrow> Escalation \<Rightarrow> Escalation list \<Rightarrow> Escalation list" where
  "replace_by_id i esc prev = map (\<lambda>e. if escalation_id e = i then esc else e) prev"

text \<open>
  \<open>add_new esc prev\<close> is the updater of the \<open>new_escalation\<close> branch:
  \<open>prev.find(...)\<close>, then \<open>prev\<close> itself or \<open>[esc, ...prev]\<close>.
\<close>

definition add_new :: "Escalation \<Rightarrow> Escalation list \<Rightarrow> Escalation list" where
  "add_new esc prev =
     (case find (\<lambda>e. escalation_id e = escalation_id esc) prev of
        Some exists \<Rightarrow> prev
      | None \<Rightarrow> esc # prev)"

text \<open>
  The branch shared by \<open>escalation_resolved\<close> and \<open>insights_updated\<close>. The handler is a
  closure created inside \<open>useEffect(..., [])\<close>, so the \<open>selectedEscalation\<close> it compares
  with is the value captured when the effect ran; it is the parameter \<open>sel\<close>.
\<close>

definition apply_update :: "Escalation option \<Rightarrow> dashboard \<Rightarrow> string \<Rightarrow> Escalation \<Rightarrow> dashboard" where
  "apply_update sel s i esc =
     (let s' = s\<lparr>escalations := replace_by_id i esc (escalations s)\<rparr>
      in if map_option escalation_id sel = Some i
         then s'\<lparr>selectedEscalation := Some esc\<rparr>
         else s')"

text \<open>
  \<open>ws.onmessage\<close> of the first variant in \<open>EscalationDashboard.tsx\<close> and of
  \<open>part_005\<close>: three branches, every other message type falls through.
\<close>

fun onmessage :: "Escalation option \<Rightarrow> dashboard \<Rightarrow> ws_message \<Rightarrow> dashboard" where
  "onmessage sel s (InitialState es) =
     s\<lparr>escalations := (case es of Some l \<Rightarrow> l | None \<Rightarrow> [])\<rparr>"
| "onmessage sel s (NewEscalation esc) =
     s\<lparr>escalations := add_new esc (escalations s)\<rparr>"
| "onmessage sel s (EscalationResolved i esc) = apply_update sel s i esc"
| "onmessage sel s (InsightsUpdated i esc) = s"
| "onmessage sel s (OtherMessage t) = s"

text \<open>
  \<open>ws.onmessage\<close> of the second variant in \<open>EscalationDashboard.tsx\<close>: a fourth branch
  for \<open>insights_updated\<close>.
\<close>

fun onmessage_insights :: "Escalation option \<Rightarrow> dashboard \<Rightarrow> ws_message \<Rightarrow> dashboard" where
  "onmessage_insights sel s (InitialState es) =
     s\<lparr>escalations := (case es of Some l \<Rightarrow> l | None \<Rightarrow> [])\<rparr>"
| "onmessage_insights sel s (NewEscalation esc) =
     s\<lparr>escalations := add_new esc (escalations s)\<rparr>"
| "onmessage_insights sel s (EscalationResolved i esc) = apply_update sel s i esc"
| "onmessage_insights sel s (InsightsUpdated i esc) = apply_update sel s i esc"
| "onmessage_insights sel s (OtherMessage t) = s"

text \<open>\<open>const pendingEscalations = escalations.filter((e) => e.status === "pending")\<close>\<close>

definition pendingEscalations :: "dashboard \<Rightarrow> Escalation list" where
  "pendingEscalations s = filter (\<lambda>e. status e = Pending) (escalations s)"

section \<open>Requests issued by the console\<close>

text \<open>
  The handlers below talk to the server with \<open>fetch\<close> and to the operator with
  \<open>alert\<close>. A handler is modelled as a function from the state and the server's
  replies to the new state and the list of effects it performed, in order. The replies
  are inputs: what the server answers is not decided by the console.
\<close>

datatype request = GetPending | GetEscalation string | PostRespond string string

datatype effect = Fetch request | Alert string | ConsoleError string

datatype pending_reply = PendingData "Escalation list option" | PendingFails

datatype escalation_reply = EscalationData Escalation | EscalationFails

datatype respond_reply = RespondOk | RespondRejected "string option" | RespondFails

text \<open>
  \<open>String.prototype.trim\<close> removes the leading and trailing white space and line
  terminators. A \<open>char\<close> stands for a code unit below 256; among these the white space
  and line terminators of ECMAScript are TAB, LF, VT, FF, CR, SP and NBSP.
\<close>

definition js_whitespace :: "char \<Rightarrow> bool" where
  "js_whitespace c \<longleftrightarrow> of_char c \<in> {9, 10, 11, 12, 13, 32, 160 :: nat}"

definition trim :: "string \<Rightarrow> string" where
  "trim t = rev (dropWhile js_whitespace (rev (dropWhile js_whitespace t)))"

text \<open>
  \<open>fetchPendingEscalations\<close>: a failing request or an unparsable body is caught and
  logged, the state is left as it was.
\<close>

definition fetchPendingEscalations :: "dashboard \<Rightarrow> pending_reply \<Rightarrow> dashboard \<times> effect list" where
  "fetchPendingEscalations s pr =
     (case pr of
        PendingData es \<Rightarrow>
          (s\<lparr>escalations := (case es of Some l \<Rightarrow> l | None \<Rightarrow> [])\<rparr>, [Fetch GetPending])
      | PendingFails \<Rightarrow>
          (s, [Fetch GetPending, ConsoleError ''Error fetching escalations:'']))"

text \<open>\<open>handleSelectEscalation\<close>: a second click on the selected card closes it.\<close>

definition handleSelectEscalation ::
    "dashboard \<Rightarrow> Escalation \<Rightarrow> escalation_reply \<Rightarrow> dashboard \<times> effect list" where
  "handleSelectEscalation s escalation er =
     (if map_option escalation_id (selectedEscalation s) = Some (escalation_id escalation)
      then (s\<lparr>selectedEscalation := None, responseText := ''''\<rparr>, [])
      else case er of
             EscalationData fullEscalation \<Rightarrow>
               (s\<lparr>selectedEscalation := Some fullEscalation, responseText := ''''\<rparr>,
                [Fetch (GetEscalation (escalation_id escalation))])
           | EscalationFails \<Rightarrow>
               (s, [Fetch (GetEscalation (escalation_id escalation)),
                    ConsoleError ''Error fetching escalation details:'']))"

text \<open>
  The text of the alert in the rejected branch:
  \<open>`Error: ${error.detail || "Failed to submit response"}`\<close>, where an absent or empty
  \<open>detail\<close> is falsy.
\<close>

definition error_text :: "string option \<Rightarrow> string" where
  "error_text detail =
     ''Error: '' @ (case detail of
                      None \<Rightarrow> ''Failed to submit response''
                    | Some d \<Rightarrow> if d = '''' then ''Failed to submit response'' else d)"

text \<open>
  \<open>handleSubmitResponse\<close>. \<open>RespondOk\<close> is a reply with \<open>response.ok\<close>,
  \<open>RespondRejected detail\<close> a reply without it whose body parses, \<open>RespondFails\<close> a
  request that throws (or a rejected reply whose body does not parse); the
  \<open>finally\<close> block clears \<open>isSubmitting\<close> on every path after the guard.
\<close>

definition handleSubmitResponse ::
    "dashboard \<Rightarrow> respond_reply \<Rightarrow> pending_reply \<Rightarrow> dashboard \<times> effect list" where
  "handleSubmitResponse s rr pr =
     (case selectedEscalation s of
        None \<Rightarrow> (s, [])
      | Some sel \<Rightarrow>
          if trim (responseText s) = '''' then (s, [])
          else
            let post = Fetch (PostRespond (escalation_id sel) (trim (responseText s)));
                s1 = s\<lparr>isSubmitting := True\<rparr>
            in case rr of
                 RespondOk \<Rightarrow>
                   (let (s2, fx) = fetchPendingEscalations
                                     (s1\<lparr>responseText := '''', selectedEscalation := None\<rparr>) pr
                    in (s2\<lparr>isSubmitting := False\<rparr>, post # fx))
               | RespondRejected detail \<Rightarrow>
                   (s1\<lparr>isSubmitting := False\<rparr>, [post, Alert (error_text detail)])
               | RespondFails \<Rightarrow>
                   (s1\<lparr>isSubmitting := False\<rparr>,
                    [post, ConsoleError ''Error submitting response:'',
                     Alert ''Failed to submit response. Please try again.'']))"

section \<open>The escalation orchestrator\<close>

text \<open>
  The server side (\<open>api_server.py\<close>, \<open>simple_agent.py\<close>) is not part of the sources at
  hand; the console only calls it. Its store, registry and orchestrator are modelled
  from sections 3, 4 and 7 of the specification. The records of the store are the
  \<open>Escalation\<close> records above: \<open>id\<close> is \<open>escalation_id\<close>, \<open>response\<close> is
  \<open>human_response\<close>, \<open>resolvedAt\<close> is \<open>responded_at\<close>, \<open>insight\<close> is \<open>ai_insights\<close>.
\<close>

text \<open>
  Modelled from the spec: the error taxonomy of section 7 (the server code is missing).
\<close>

datatype error = DuplicateID | NotFound | AlreadyResolved | DuplicateWaiter | InvariantViolation

text \<open>
  Modelled from the spec: the Escalation Store of section 4.1, "the canonical mapping
  of escalation id to Escalation record" (the server code is missing).
\<close>

type_synonym escalation_store = "string \<rightharpoonup> Escalation"

text \<open>
  Modelled from the spec: \<open>put(record)\<close> of the missing store, "inserts a new record;
  fails with DuplicateID if the id exists".
\<close>

definition put :: "escalation_store \<Rightarrow> Escalation \<Rightarrow> error + escalation_store" where
  "put st record =
     (case st (escalation_id record) of
        Some existing \<Rightarrow> Inl DuplicateID
      | None \<Rightarrow> Inr (st(escalation_id record \<mapsto> record)))"

text \<open>
  Modelled from the spec: \<open>get(id)\<close> of the missing store, "returns the record or fails
  with NotFound".
\<close>

definition get :: "escalation_store \<Rightarrow> string \<Rightarrow> error + Escalation" where
  "get st i = (case st i of None \<Rightarrow> Inl NotFound | Some record \<Rightarrow> Inr record)"

text \<open>
  Modelled from the spec: \<open>compareAndTransitionToResolved(id, response, resolvedAt)\<close> of
  the missing store, "atomically checks status == pending; if so, sets status =
  resolved, response, resolvedAt, and returns success; otherwise fails with
  AlreadyResolved and performs no mutation". The whole function is one atomic section;
  an unknown id is \<open>NotFound\<close>, as for \<open>get\<close>.
\<close>

definition compareAndTransitionToResolved ::
    "escalation_store \<Rightarrow> string \<Rightarrow> string \<Rightarrow> string \<Rightarrow> error + escalation_store" where
  "compareAndTransitionToResolved st i response resolvedAt =
     (case st i of
        None \<Rightarrow> Inl NotFound
      | Some record \<Rightarrow>
          if status record = Pending
          then Inr (st(i \<mapsto> record\<lparr>status := Resolved, human_response := Some response,
                                     responded_at := Some resolvedAt\<rparr>))
          else Inl AlreadyResolved)"

text \<open>
  Modelled from the spec: the store's \<open>attachInsight(id, insight)\<close> (missing), "sets or
  overwrites insight regardless of status; does not affect the state machine".
\<close>

definition attachInsight_store :: "escalation_store \<Rightarrow> string \<Rightarrow> string \<Rightarrow> error + escalation_store" where
  "attachInsight_store st i insight =
     (case st i of
        None \<Rightarrow> Inl NotFound
      | Some record \<Rightarrow> Inr (st(i \<mapsto> record\<lparr>ai_insights := Some insight\<rparr>)))"

text \<open>
  Modelled from the spec: the waiter slots of the Session Registry of section 4.2
  (missing). A registered id maps to its single-use channel, which is empty (\<open>None\<close>)
  or holds the delivered response.
\<close>

type_synonym registry = "string \<rightharpoonup> string option"

text \<open>
  Modelled from the spec: \<open>registerWaiter(escalationId)\<close> of the missing registry,
  "registering twice for the same id is a programming error (DuplicateWaiter)".
\<close>

definition registerWaiter :: "registry \<Rightarrow> string \<Rightarrow> error + registry" where
  "registerWaiter reg i =
     (case reg i of Some channel \<Rightarrow> Inl DuplicateWaiter | None \<Rightarrow> Inr (reg(i \<mapsto> None)))"

text \<open>
  Modelled from the spec: \<open>deliver(escalationId, event)\<close> of the missing registry,
  "pushes an event to the registered waiter if one exists; is a no-op (not an error) if
  the agent already gave up".
\<close>

definition deliver :: "registry \<Rightarrow> string \<Rightarrow> string \<Rightarrow> registry" where
  "deliver reg i response =
     (case reg i of None \<Rightarrow> reg | Some channel \<Rightarrow> reg(i \<mapsto> Some response))"

text \<open>
  Modelled from the spec: \<open>unregisterWaiter(escalationId)\<close> of the missing registry,
  "removes the waiter entry".
\<close>

definition unregisterWaiter :: "registry \<Rightarrow> string \<Rightarrow> registry" where
  "unregisterWaiter reg i = reg(i := None)"

text \<open>
  Modelled from the spec: the event kinds of the Notification Hub of section 4.3
  (missing), each carrying the record. The resolved kind is named \<open>Resolution\<close> here.
\<close>

datatype event = EscalationCreated Escalation | Resolution Escalation | InsightUpdated Escalation

text \<open>
  Modelled from the spec: the state behind the Orchestrator of section 4.4 (missing):
  the store, the waiter slots, and the events handed to the hub for broadcast, oldest
  first.
\<close>

record orchestrator =
  store :: escalation_store
  waiters :: registry
  broadcast :: "event list"

text \<open>
  Modelled from the spec: the broadcast of an event about the current record of an id
  (the hub is missing; its per-console buffers are not modelled).
\<close>

definition announce :: "orchestrator \<Rightarrow> (Escalation \<Rightarrow> event) \<Rightarrow> string \<Rightarrow> orchestrator" where
  "announce sys kind i =
     (case store sys i of
        None \<Rightarrow> sys
      | Some record \<Rightarrow> sys\<lparr>broadcast := broadcast sys @ [kind record]\<rparr>)"

text \<open>
  Modelled from the spec: \<open>create(...)\<close> of the missing orchestrator, "generates a fresh
  unique id, builds a pending record with createdAt = now, writes it via the Store,
  broadcasts EscalationCreated, and returns the id". The generated id and the clock are
  inputs; \<open>request\<close> carries the seven arguments in its fields. A duplicate id is the
  fatal invariant violation.
\<close>

definition create :: "orchestrator \<Rightarrow> string \<Rightarrow> string \<Rightarrow> Escalation \<Rightarrow> error + orchestrator \<times> string" where
  "create sys newId now request =
     (let record = request\<lparr>escalation_id := newId, status := Pending, created_at := now,
                          human_response := None, responded_at := None,
                          ai_insights := None, insights_generated_at := None\<rparr>
      in case put (store sys) record of
           Inl e \<Rightarrow> Inl InvariantViolation
         | Inr st \<Rightarrow> Inr (announce (sys\<lparr>store := st\<rparr>) EscalationCreated newId, newId))"

text \<open>
  Modelled from the spec: \<open>respond(id, text)\<close> of the missing orchestrator, "calls the
  Store's atomic compare-and-transition; on success, broadcasts EscalationResolved and
  delivers the outcome to the registered waiter (if still present); on failure
  (AlreadyResolved), surfaces that to the caller". The clock is an input.
\<close>

definition respond :: "orchestrator \<Rightarrow> string \<Rightarrow> string \<Rightarrow> string \<Rightarrow> error + orchestrator" where
  "respond sys i text now =
     (case compareAndTransitionToResolved (store sys) i text now of
        Inl e \<Rightarrow> Inl e
      | Inr st \<Rightarrow>
          Inr ((announce (sys\<lparr>store := st\<rparr>) Resolution i)
                 \<lparr>waiters := deliver (waiters sys) i text\<rparr>))"

text \<open>
  Modelled from the spec: \<open>attachInsight(id, text)\<close> of the missing orchestrator,
  "pass-through to the Store plus an InsightUpdated broadcast".
\<close>

definition attachInsight :: "orchestrator \<Rightarrow> string \<Rightarrow> string \<Rightarrow> error + orchestrator" where
  "attachInsight sys i text =
     (case attachInsight_store (store sys) i text of
        Inl e \<Rightarrow> Inl e
      | Inr st \<Rightarrow> Inr (announce (sys\<lparr>store := st\<rparr>) InsightUpdated i))"

text \<open>
  Modelled from the spec: a set of concurrent \<open>respond\<close> calls on one id (the server is
  missing). Each call runs the store's atomic section once, so the calls take effect in
  some order: the list gives the text and the clock reading of each call in that
  order. The result is the answer each caller gets and the final state.
\<close>

fun respond_all ::
    "orchestrator \<Rightarrow> string \<Rightarrow> (string \<times> string) list \<Rightarrow> (error + unit) list \<times> orchestrator" where
  "respond_all sys i [] = ([], sys)"
| "respond_all sys i ((text, now) # calls) =
     (case respond sys i text now of
        Inl e \<Rightarrow> (let (results, sys') = respond_all sys i calls in (Inl e # results, sys'))
      | Inr sys1 \<Rightarrow> (let (results, sys') = respond_all sys1 i calls in (Inr () # results, sys')))"

text \<open>
  Modelled from the spec: the three kinds of event of section 4.3, as a tag (the hub
  is missing).
\<close>

datatype event_kind = CreatedKind | ResolvedKind | InsightKind

text \<open>
  Modelled from the spec: the event of a kind about a record (the hub is missing).
\<close>

fun make_event :: "event_kind \<Rightarrow> Escalation \<Rightarrow> event" where
  "make_event CreatedKind = EscalationCreated"
| "make_event ResolvedKind = Resolution"
| "make_event InsightKind = InsightUpdated"

text \<open>
  Modelled from the spec: the atomic steps that other callers take while an agent
  waits (the server is missing): the primitives of the store (section 4.1), a
  broadcast of the hub (section 4.3) and a delivery of the registry (section 4.2).
  An operation of the orchestrator is a sequence of them; \<open>respond\<close> is
  \<open>CompareAndTransition\<close>, then \<open>Broadcast\<close>, then \<open>Deliver\<close>. Only each primitive is
  atomic, so steps of other callers, and the end of a timeout, may fall between the
  store transition of a \<open>respond\<close> and its delivery.
\<close>

datatype primitive =
    Put Escalation
  | CompareAndTransition string string string
  | AttachInsight string string
  | Broadcast event_kind string
  | Deliver string string

text \<open>
  Modelled from the spec: one primitive taking effect; a failed primitive returns its
  error to its own caller and leaves the state as it was.
\<close>

fun perform :: "orchestrator \<Rightarrow> primitive \<Rightarrow> orchestrator" where
  "perform sys (Put record) =
     (case put (store sys) record of Inl e \<Rightarrow> sys | Inr st \<Rightarrow> sys\<lparr>store := st\<rparr>)"
| "perform sys (CompareAndTransition i response now) =
     (case compareAndTransitionToResolved (store sys) i response now of
        Inl e \<Rightarrow> sys
      | Inr st \<Rightarrow> sys\<lparr>store := st\<rparr>)"
| "perform sys (AttachInsight i insight) =
     (case attachInsight_store (store sys) i insight of
        Inl e \<Rightarrow> sys
      | Inr st \<Rightarrow> sys\<lparr>store := st\<rparr>)"
| "perform sys (Broadcast kind i) = announce sys (make_event kind) i"
| "perform sys (Deliver i response) = sys\<lparr>waiters := deliver (waiters sys) i response\<rparr>"

text \<open>
  Modelled from the spec: one step of time, in which at most one primitive of another
  caller takes effect.
\<close>

definition tick :: "orchestrator \<Rightarrow> primitive option \<Rightarrow> orchestrator" where
  "tick sys step = (case step of None \<Rightarrow> sys | Some x \<Rightarrow> perform sys x)"

text \<open>
  Modelled from the spec: whether a step is the store transition of a \<open>respond\<close> on
  the given id.
\<close>

fun transition_on :: "string \<Rightarrow> primitive option \<Rightarrow> bool" where
  "transition_on i (Some (CompareAndTransition j response now)) = (j = i)"
| "transition_on i step = False"

text \<open>
  Modelled from the spec: the \<open>Outcome\<close> of \<open>awaitResponse\<close> (missing),
  \<open>Resolved(response)\<close> or \<open>TimedOut\<close>.
\<close>

datatype outcome = ResolvedWith string | TimedOut

text \<open>
  Modelled from the spec: the suspended part of \<open>awaitResponse\<close> (missing). Time is a
  sequence of steps. After each step the waiter looks at its channel: it returns
  \<open>Resolved\<close> as soon as the channel holds a response, and \<open>TimedOut\<close> when the steps
  of the timeout are used up; in both cases it unregisters. It never writes to the
  store.
\<close>

fun await :: "orchestrator \<Rightarrow> string \<Rightarrow> primitive option list \<Rightarrow> outcome \<times> orchestrator" where
  "await sys i [] = (TimedOut, sys\<lparr>waiters := unregisterWaiter (waiters sys) i\<rparr>)"
| "await sys i (step # steps) =
     (let sys' = tick sys step
      in case waiters sys' i of
           Some (Some response) \<Rightarrow>
             (ResolvedWith response, sys'\<lparr>waiters := unregisterWaiter (waiters sys') i\<rparr>)
         | _ \<Rightarrow> await sys' i steps)"

text \<open>
  Modelled from the spec: \<open>awaitResponse(id, timeout)\<close> of the missing orchestrator,
  "registers a waiter, blocks until either a resolution event arrives, returning
  Resolved(response), or the timeout elapses, returning TimedOut". \<open>timeout\<close> is the
  number of steps and \<open>env\<close> what the other callers do at each step.
\<close>

definition awaitResponse ::
    "orchestrator \<Rightarrow> string \<Rightarrow> nat \<Rightarrow> primitive option list \<Rightarrow> error + outcome \<times> orchestrator" where
  "awaitResponse sys i timeout env =
     (case registerWaiter (waiters sys) i of
        Inl e \<Rightarrow> Inl e
      | Inr reg \<Rightarrow> Inr (await (sys\<lparr>waiters := reg\<rparr>) i (take timeout env)))"

section \<open>Example data\<close>

definition esc1 :: Escalation where
  "esc1 = \<lparr>escalation_id = ''E1'', room_name = ''room-1'', user_id = ''user_1'',
           reason = ''discount above limit'', urgency = High,
           decision_type = ''pricing'', context_details = ''asks for 20 percent'',
           recent_transcript = [\<lparr>role = ''user'', content = ''Can I get 20 percent off?'',
                                  timestamp = ''2025-01-01T10:00:00''\<rparr>],
           status = Pending, created_at = ''2025-01-01T10:00:01'',
           human_response = None, responded_at = None,
           ai_insights = None, insights_generated_at = None\<rparr>"

definition esc2 :: Escalation where
  "esc2 = \<lparr>escalation_id = ''E2'', room_name = ''room-2'', user_id = ''user_2'',
           reason = ''contract change'', urgency = Medium,
           decision_type = ''legal'', context_details = '''',
           recent_transcript = [],
           status = Pending, created_at = ''2025-01-01T10:00:05'',
           human_response = None, responded_at = None,
           ai_insights = None, insights_generated_at = None\<rparr>"

definition esc1_insight :: Escalation where
  "esc1_insight = esc1\<lparr>status := Resolved, human_response := Some ''approve'',
                      responded_at := Some ''2025-01-01T10:01:00'',
                      ai_insights := Some ''- margin stays positive'',
                      insights_generated_at := Some ''2025-01-01T10:01:30''\<rparr>"

definition dash0 :: dashboard where
  "dash0 = \<lparr>escalations = [], selectedEscalation = None, responseText = '''',
            isSubmitting = False\<rparr>"

definition dash_sel :: dashboard where
  "dash_sel = \<lparr>escalations = [esc1], selectedEscalation = Some esc1,
               responseText = '' approve  '', isSubmitting = False\<rparr>"

definition sys0 :: orchestrator where
  "sys0 = \<lparr>store = [''E1'' \<mapsto> esc1, ''E2'' \<mapsto> esc2], waiters = Map.empty, broadcast = []\<rparr>"

definition env0 :: "primitive option list" where
  "env0 = [Some (CompareAndTransition ''E1'' ''approve'' ''2025-01-01T10:01:00''), None,
           Some (CompareAndTransition ''E2'' ''ok'' ''2025-01-01T10:01:02'')]"

definition env_race :: "primitive option list" where
  "env_race = [Some (CompareAndTransition ''E2'' ''ok'' ''2025-01-01T10:01:02''),
               Some (Broadcast ResolvedKind ''E2''),
               Some (Deliver ''E2'' ''ok'')]"

definition esc2_resolved :: Escalation where
  "esc2_resolved = esc2\<lparr>status := Resolved, human_response := Some ''ok'',
                        responded_at := Some ''2025-01-01T10:01:02''\<rparr>"

definition after_race :: orchestrator where
  "after_race = \<lparr>store = [''E1'' \<mapsto> esc1, ''E2'' \<mapsto> esc2_resolved],
                 waiters = Map.empty, broadcast = []\<rparr>"

section \<open>Properties of the message handler\<close>

lemma replace_by_id_absent:
  "i \<notin> escalation_id ` set prev \<Longrightarrow> replace_by_id i esc prev = prev"
  unfolding replace_by_id_def by (induction prev) auto

lemma add_new_present:
  "escalation_id esc \<in> escalation_id ` set prev \<Longrightarrow> add_new esc prev = prev"
  unfolding add_new_def by (auto simp: find_None_iff split: option.splits)

lemma add_new_fresh:
  "escalation_id esc \<notin> escalation_id ` set prev \<Longrightarrow> add_new esc prev = esc # prev"
proof -
  assume "escalation_id esc \<notin> escalation_id ` set prev"
  then have "find (\<lambda>e. escalation_id e = escalation_id esc) prev = None"
    unfolding find_None_iff by (metis image_eqI)
  then show ?thesis by (simp add: add_new_def)
qed

lemma add_new_distinct:
  "distinct (map escalation_id prev) \<Longrightarrow> distinct (map escalation_id (add_new esc prev))"
  by (cases "escalation_id esc \<in> escalation_id ` set prev")
     (simp_all add: add_new_present add_new_fresh)

lemma fold_add_new:
  "distinct (map escalation_id evs) \<Longrightarrow>
   escalation_id ` set evs \<inter> escalation_id ` set prev = {} \<Longrightarrow>
   foldl (\<lambda>acc e. add_new e acc) prev evs = rev evs @ prev"
proof (induction evs arbitrary: prev)
  case Nil
  then show ?case by simp
next
  case (Cons e evs)
  have fresh: "escalation_id e \<notin> escalation_id ` set prev"
    using Cons.prems(2) by auto
  have "foldl (\<lambda>acc e. add_new e acc) (e # prev) evs = rev evs @ (e # prev)"
    using Cons.prems by (intro Cons.IH) auto
  then show ?case by (simp add: add_new_fresh [OF fresh])
qed

lemma replace_by_id_nth:
  "k < length prev \<Longrightarrow>
   replace_by_id i esc prev ! k = (if escalation_id (prev ! k) = i then esc else prev ! k)"
  by (simp add: replace_by_id_def)

lemma replace_by_id_present:
  "i \<in> escalation_id ` set prev \<Longrightarrow> esc \<in> set (replace_by_id i esc prev)"
  unfolding replace_by_id_def by (induction prev) auto

lemma escalations_apply_update:
  "escalations (apply_update sel s i esc) = replace_by_id i esc (escalations s)"
  by (simp add: apply_update_def Let_def)

lemma selected_apply_update:
  "selectedEscalation (apply_update sel s i esc)
     = (if map_option escalation_id sel = Some i then Some esc else selectedEscalation s)"
  by (cases sel) (auto simp: apply_update_def Let_def)

lemma escalations_foldl_new:
  "escalations (foldl (onmessage sel) s (map NewEscalation evs))
     = foldl (\<lambda>acc e. add_new e acc) (escalations s) evs"
  by (induction evs arbitrary: s) simp_all

lemma escalations_foldl_new_insights:
  "escalations (foldl (onmessage_insights sel) s (map NewEscalation evs))
     = foldl (\<lambda>acc e. add_new e acc) (escalations s) evs"
  by (induction evs arbitrary: s) simp_all

text \<open>
  Claim C9. An \<open>escalation_resolved\<close> message whose id matches no entry of the list
  leaves the list as it is, in both variants of the handler: the handler is a total
  function (nothing is raised) and the list keeps its entries and their order.
\<close>

theorem resolved_unknown_id_noop:
  assumes "i \<notin> escalation_id ` set (escalations s)"
  shows "escalations (onmessage sel s (EscalationResolved i esc)) = escalations s
       \<and> escalations (onmessage_insights sel s (EscalationResolved i esc)) = escalations s"
  using assms by (simp add: apply_update_def Let_def replace_by_id_absent)

theorem resolved_unknown_id_noop_witness:
  "''E2'' \<notin> escalation_id ` set (escalations (dash0\<lparr>escalations := [esc1]\<rparr>))
   \<and> escalations (onmessage None (dash0\<lparr>escalations := [esc1]\<rparr>)
        (EscalationResolved ''E2'' (esc2\<lparr>status := Resolved\<rparr>))) = [esc1]
   \<and> escalations (onmessage_insights None (dash0\<lparr>escalations := [esc1]\<rparr>)
        (EscalationResolved ''E2'' (esc2\<lparr>status := Resolved\<rparr>))) = [esc1]"
proof -
  have h: "''E2'' \<notin> escalation_id ` set (escalations (dash0\<lparr>escalations := [esc1]\<rparr>))"
    by (simp add: dash0_def esc1_def)
  show ?thesis
    using h resolved_unknown_id_noop [OF h, of None "esc2\<lparr>status := Resolved\<rparr>"]
    by simp
qed

text \<open>
  Claim C8. The \<open>new_escalation\<close> branch is idempotent on the escalation id. When the
  id of the incoming record already occurs in the list, the whole state is unchanged;
  when it does not, the record becomes the new head of the list and the rest is the
  old list; and a list whose ids are pairwise distinct stays so. All three hold for
  both variants of the handler.
\<close>

theorem new_escalation_idempotent:
  "(escalation_id esc \<in> escalation_id ` set (escalations s) \<longrightarrow>
      onmessage sel s (NewEscalation esc) = s
    \<and> onmessage_insights sel s (NewEscalation esc) = s)
 \<and> (escalation_id esc \<notin> escalation_id ` set (escalations s) \<longrightarrow>
      escalations (onmessage sel s (NewEscalation esc)) = esc # escalations s
    \<and> escalations (onmessage_insights sel s (NewEscalation esc)) = esc # escalations s)
 \<and> (distinct (map escalation_id (escalations s)) \<longrightarrow>
      distinct (map escalation_id (escalations (onmessage sel s (NewEscalation esc))))
    \<and> distinct (map escalation_id (escalations (onmessage_insights sel s (NewEscalation esc)))))"
  by (simp add: add_new_present add_new_fresh add_new_distinct)

theorem new_escalation_idempotent_witness:
  "escalation_id esc1 \<in> escalation_id ` set (escalations (dash0\<lparr>escalations := [esc1]\<rparr>))
 \<and> escalation_id esc2 \<notin> escalation_id ` set (escalations (dash0\<lparr>escalations := [esc1]\<rparr>))
 \<and> distinct (map escalation_id (escalations (dash0\<lparr>escalations := [esc1]\<rparr>)))
 \<and> onmessage None (dash0\<lparr>escalations := [esc1]\<rparr>) (NewEscalation esc1)
       = dash0\<lparr>escalations := [esc1]\<rparr>
 \<and> escalations (onmessage None (dash0\<lparr>escalations := [esc1]\<rparr>) (NewEscalation esc2))
       = [esc2, esc1]
 \<and> distinct (map escalation_id
       (escalations (onmessage None (dash0\<lparr>escalations := [esc1]\<rparr>) (NewEscalation esc2))))"
proof -
  have a: "escalation_id esc1 \<in> escalation_id ` set (escalations (dash0\<lparr>escalations := [esc1]\<rparr>))"
    by simp
  have b: "escalation_id esc2 \<notin> escalation_id ` set (escalations (dash0\<lparr>escalations := [esc1]\<rparr>))"
    by (simp add: esc1_def esc2_def)
  have c: "distinct (map escalation_id (escalations (dash0\<lparr>escalations := [esc1]\<rparr>)))"
    by simp
  show ?thesis
    using a b c
      new_escalation_idempotent [of esc1 "dash0\<lparr>escalations := [esc1]\<rparr>" None]
      new_escalation_idempotent [of esc2 "dash0\<lparr>escalations := [esc1]\<rparr>" None]
    by simp
qed

text \<open>
  Claim C4. The displayed pending list holds exactly the ids of the entries whose
  status is \<open>pending\<close>. After an \<open>escalation_resolved\<close> message for id \<open>i\<close> that
  carries the resolved record, \<open>i\<close> is no longer in the pending list (every entry with
  that id has been replaced by the resolved record); before, an entry with status
  \<open>pending\<close> is in it, by the first part.
\<close>

theorem pending_projection_exact:
  "(i \<in> escalation_id ` set (pendingEscalations s) \<longleftrightarrow>
      (\<exists>e \<in> set (escalations s). escalation_id e = i \<and> status e = Pending))
 \<and> (status esc = Resolved \<longrightarrow>
      i \<notin> escalation_id ` set (pendingEscalations (onmessage sel s (EscalationResolved i esc)))
    \<and> i \<notin> escalation_id ` set
          (pendingEscalations (onmessage_insights sel s (EscalationResolved i esc))))"
  by (auto simp: pendingEscalations_def escalations_apply_update replace_by_id_def)

theorem pending_projection_exact_witness:
  "status (esc1\<lparr>status := Resolved\<rparr>) = Resolved
 \<and> esc1 \<in> set (escalations (dash0\<lparr>escalations := [esc2, esc1]\<rparr>))
 \<and> ''E1'' \<in> escalation_id ` set (pendingEscalations (dash0\<lparr>escalations := [esc2, esc1]\<rparr>))
 \<and> ''E1'' \<notin> escalation_id ` set (pendingEscalations
        (onmessage None (dash0\<lparr>escalations := [esc2, esc1]\<rparr>)
           (EscalationResolved ''E1'' (esc1\<lparr>status := Resolved\<rparr>))))"
proof -
  have a: "status (esc1\<lparr>status := Resolved\<rparr>) = Resolved" by simp
  have b: "esc1 \<in> set (escalations (dash0\<lparr>escalations := [esc2, esc1]\<rparr>))
         \<and> escalation_id esc1 = ''E1'' \<and> status esc1 = Pending"
    by (simp add: esc1_def)
  show ?thesis
    using a b
      pending_projection_exact [of "''E1''" "dash0\<lparr>escalations := [esc2, esc1]\<rparr>"
         "esc1\<lparr>status := Resolved\<rparr>" None]
    by blast
qed

text \<open>
  Claim C6, as stated, fails: the \<open>insights_updated\<close> branch replaces the target entry
  by the record the message carries, status included. Here the console holds \<open>E1\<close> as
  pending and the message carries the record after its resolution.
\<close>

theorem insight_status_counterexample:
  "map status (escalations (dash0\<lparr>escalations := [esc1]\<rparr>)) = [Pending]
 \<and> map status (escalations (onmessage_insights None (dash0\<lparr>escalations := [esc1]\<rparr>)
        (InsightsUpdated ''E1'' esc1_insight))) = [Resolved]"
  by (simp add: escalations_apply_update replace_by_id_def esc1_def esc1_insight_def)

text \<open>
  Claim C6, amended. An \<open>insights_updated\<close> message keeps the length and order of the
  list; every entry whose id differs from the message's \<open>escalation_id\<close> is unchanged;
  an entry with that id becomes the record carried by the message, so its status is
  unchanged exactly when the carried record has the status the entry had.
\<close>

theorem insight_update_frame:
  "length (escalations (onmessage_insights sel s (InsightsUpdated i esc)))
     = length (escalations s)
 \<and> (\<forall>k < length (escalations s).
      (escalation_id (escalations s ! k) \<noteq> i \<longrightarrow>
         escalations (onmessage_insights sel s (InsightsUpdated i esc)) ! k = escalations s ! k)
    \<and> (escalation_id (escalations s ! k) = i \<longrightarrow>
         escalations (onmessage_insights sel s (InsightsUpdated i esc)) ! k = esc)
    \<and> (escalation_id (escalations s ! k) \<noteq> i \<or> status esc = status (escalations s ! k) \<longrightarrow>
         status (escalations (onmessage_insights sel s (InsightsUpdated i esc)) ! k)
           = status (escalations s ! k)))"
  by (simp add: escalations_apply_update replace_by_id_def)

theorem insight_update_frame_witness:
  "(0::nat) < length (escalations (dash0\<lparr>escalations := [esc1, esc2]\<rparr>))
 \<and> (1::nat) < length (escalations (dash0\<lparr>escalations := [esc1, esc2]\<rparr>))
 \<and> escalation_id (escalations (dash0\<lparr>escalations := [esc1, esc2]\<rparr>) ! 0) = ''E1''
 \<and> escalation_id (escalations (dash0\<lparr>escalations := [esc1, esc2]\<rparr>) ! 1) \<noteq> ''E1''
 \<and> escalations (onmessage_insights None (dash0\<lparr>escalations := [esc1, esc2]\<rparr>)
       (InsightsUpdated ''E1'' esc1_insight)) ! 0 = esc1_insight
 \<and> escalations (onmessage_insights None (dash0\<lparr>escalations := [esc1, esc2]\<rparr>)
       (InsightsUpdated ''E1'' esc1_insight)) ! 1 = esc2
 \<and> status (escalations (onmessage_insights None (dash0\<lparr>escalations := [esc1, esc2]\<rparr>)
       (InsightsUpdated ''E1'' esc1_insight)) ! 1) = Pending"
proof -
  have a: "escalation_id (escalations (dash0\<lparr>escalations := [esc1, esc2]\<rparr>) ! 0) = ''E1''"
    by (simp add: esc1_def)
  have b: "escalation_id (escalations (dash0\<lparr>escalations := [esc1, esc2]\<rparr>) ! 1) \<noteq> ''E1''"
    by (simp add: esc2_def)
  have c: "status esc2 = Pending" by (simp add: esc2_def)
  show ?thesis
    using a b c
      insight_update_frame [where s = "dash0\<lparr>escalations := [esc1, esc2]\<rparr>"
        and sel = None and i = "''E1''" and esc = esc1_insight]
    by simp
qed

text \<open>
  Claim C5, as stated, fails for the first variant of the component (and for
  \<open>part_005\<close>): its handler has no \<open>insights_updated\<close> branch, so such a message for
  an id that is in the list, carrying a different record, leaves the state as it was.
\<close>

theorem insights_discarded_counterexample:
  "esc1_insight \<noteq> esc1
 \<and> ''E1'' \<in> escalation_id ` set (escalations (dash0\<lparr>escalations := [esc1]\<rparr>))
 \<and> onmessage None (dash0\<lparr>escalations := [esc1]\<rparr>) (InsightsUpdated ''E1'' esc1_insight)
       = dash0\<lparr>escalations := [esc1]\<rparr>"
  by (simp add: esc1_def esc1_insight_def)

text \<open>
  Claim C5, amended. The variant of the component that declares \<open>ai_insights\<close> acts
  on all three kinds: a \<open>new_escalation\<close> with a fresh id puts the record at the head
  of the list, and an \<open>escalation_resolved\<close> or \<open>insights_updated\<close> replaces every
  entry that has the message's id by the carried record and keeps every other entry,
  in the same order (so for an id in the list the carried record is in the list
  afterwards); the selected escalation becomes the carried record when the selection
  the handler captured has that id. The earlier variant acts on \<open>new_escalation\<close> and
  \<open>escalation_resolved\<close> in the same way and leaves the state unchanged on
  \<open>insights_updated\<close>.
\<close>

theorem event_kinds_handled:
  "(escalation_id esc \<notin> escalation_id ` set (escalations s) \<longrightarrow>
      escalations (onmessage_insights sel s (NewEscalation esc)) = esc # escalations s
    \<and> escalations (onmessage sel s (NewEscalation esc)) = esc # escalations s)
 \<and> escalations (onmessage_insights sel s (EscalationResolved i esc))
      = map (\<lambda>e. if escalation_id e = i then esc else e) (escalations s)
 \<and> escalations (onmessage_insights sel s (InsightsUpdated i esc))
      = map (\<lambda>e. if escalation_id e = i then esc else e) (escalations s)
 \<and> escalations (onmessage sel s (EscalationResolved i esc))
      = map (\<lambda>e. if escalation_id e = i then esc else e) (escalations s)
 \<and> selectedEscalation (onmessage_insights sel s (EscalationResolved i esc))
      = (if map_option escalation_id sel = Some i then Some esc else selectedEscalation s)
 \<and> selectedEscalation (onmessage_insights sel s (InsightsUpdated i esc))
      = (if map_option escalation_id sel = Some i then Some esc else selectedEscalation s)
 \<and> selectedEscalation (onmessage sel s (EscalationResolved i esc))
      = (if map_option escalation_id sel = Some i then Some esc else selectedEscalation s)
 \<and> (i \<in> escalation_id ` set (escalations s) \<longrightarrow>
      esc \<in> set (map (\<lambda>e. if escalation_id e = i then esc else e) (escalations s)))
 \<and> onmessage sel s (InsightsUpdated i esc) = s"
  using replace_by_id_present [of i "escalations s" esc]
  by (simp add: add_new_fresh escalations_apply_update selected_apply_update replace_by_id_def)

theorem event_kinds_handled_witness:
  "escalation_id esc2 \<notin> escalation_id ` set (escalations (dash0\<lparr>escalations := [esc1]\<rparr>))
 \<and> ''E1'' \<in> escalation_id ` set (escalations (dash0\<lparr>escalations := [esc1, esc2]\<rparr>))
 \<and> escalations (onmessage_insights None (dash0\<lparr>escalations := [esc1]\<rparr>) (NewEscalation esc2))
       = [esc2, esc1]
 \<and> escalations (onmessage_insights None (dash0\<lparr>escalations := [esc1, esc2]\<rparr>)
       (EscalationResolved ''E1'' esc1_insight)) = [esc1_insight, esc2]
 \<and> escalations (onmessage_insights None (dash0\<lparr>escalations := [esc1, esc2]\<rparr>)
       (InsightsUpdated ''E1'' esc1_insight)) = [esc1_insight, esc2]
 \<and> escalations (onmessage None (dash0\<lparr>escalations := [esc1, esc2]\<rparr>)
       (EscalationResolved ''E1'' esc1_insight)) = [esc1_insight, esc2]
 \<and> esc1_insight \<in> set (escalations (onmessage_insights None (dash0\<lparr>escalations := [esc1, esc2]\<rparr>)
       (InsightsUpdated ''E1'' esc1_insight)))"
proof -
  have a: "escalation_id esc2 \<notin> escalation_id ` set (escalations (dash0\<lparr>escalations := [esc1]\<rparr>))"
    by (simp add: esc1_def esc2_def)
  have b: "''E1'' \<in> escalation_id ` set (escalations (dash0\<lparr>escalations := [esc1, esc2]\<rparr>))"
    by (simp add: esc1_def)
  have c: "map (\<lambda>e. if escalation_id e = ''E1'' then esc1_insight else e)
             (escalations (dash0\<lparr>escalations := [esc1, esc2]\<rparr>)) = [esc1_insight, esc2]"
    by (simp add: esc1_def esc2_def)
  show ?thesis
    using a b
      event_kinds_handled [where esc = esc2 and s = "dash0\<lparr>escalations := [esc1]\<rparr>"
         and sel = None and i = "''E1''"]
      event_kinds_handled [where esc = esc1_insight and s = "dash0\<lparr>escalations := [esc1, esc2]\<rparr>"
         and sel = None and i = "''E1''"]
    unfolding c by simp
qed

text \<open>
  Claim C2, as stated, fails: \<open>E1\<close> is created before \<open>E2\<close> and announced first, and
  the displayed pending list has \<open>E2\<close> before \<open>E1\<close>.
\<close>

theorem pending_fifo_counterexample:
  "created_at esc1 < created_at esc2
 \<and> pendingEscalations (foldl (onmessage None) dash0 [NewEscalation esc1, NewEscalation esc2])
       = [esc2, esc1]
 \<and> pendingEscalations (foldl (onmessage_insights None) dash0 [NewEscalation esc1, NewEscalation esc2])
       = [esc2, esc1]"
  by (simp add: pendingEscalations_def add_new_def dash0_def esc1_def esc2_def)

text \<open>
  Claim C2, amended. Each accepted \<open>new_escalation\<close> is put at the head of the list,
  so the display is newest first: for messages with pairwise distinct ids that are
  not yet in the list, the pending list shows their pending records in reverse order
  of arrival, followed by what was pending before. When the list was empty and the
  messages arrive in order of \<open>created_at\<close>, the pending list is ordered by
  \<open>created_at\<close> descending.
\<close>

theorem pending_newest_first:
  assumes "distinct (map escalation_id evs)"
    and "escalation_id ` set evs \<inter> escalation_id ` set (escalations s) = {}"
  shows "pendingEscalations (foldl (onmessage sel) s (map NewEscalation evs))
           = filter (\<lambda>e. status e = Pending) (rev evs) @ pendingEscalations s
       \<and> pendingEscalations (foldl (onmessage_insights sel) s (map NewEscalation evs))
           = filter (\<lambda>e. status e = Pending) (rev evs) @ pendingEscalations s
       \<and> (escalations s = [] \<and> sorted_wrt (\<lambda>a b. created_at a \<le> created_at b) evs \<longrightarrow>
            sorted_wrt (\<lambda>a b. created_at b \<le> created_at a)
              (pendingEscalations (foldl (onmessage sel) s (map NewEscalation evs))))"
proof -
  have l: "foldl (\<lambda>acc e. add_new e acc) (escalations s) evs = rev evs @ escalations s"
    using assms by (rule fold_add_new)
  have p1: "pendingEscalations (foldl (onmessage sel) s (map NewEscalation evs))
           = filter (\<lambda>e. status e = Pending) (rev evs) @ pendingEscalations s"
    by (simp add: pendingEscalations_def escalations_foldl_new l)
  have p2: "pendingEscalations (foldl (onmessage_insights sel) s (map NewEscalation evs))
           = filter (\<lambda>e. status e = Pending) (rev evs) @ pendingEscalations s"
    by (simp add: pendingEscalations_def escalations_foldl_new_insights l)
  have p3: "sorted_wrt (\<lambda>a b. created_at b \<le> created_at a)
              (pendingEscalations (foldl (onmessage sel) s (map NewEscalation evs)))"
    if e: "escalations s = []" and srt: "sorted_wrt (\<lambda>a b. created_at a \<le> created_at b) evs"
  proof -
    have "sorted_wrt (\<lambda>a b. created_at b \<le> created_at a) (rev evs)"
      using srt by (simp add: sorted_wrt_rev)
    then have "sorted_wrt (\<lambda>a b. created_at b \<le> created_at a)
                 (filter (\<lambda>e. status e = Pending) (rev evs))"
      by (rule sorted_wrt_filter)
    moreover have "pendingEscalations s = []"
      using e by (simp add: pendingEscalations_def)
    ultimately show ?thesis unfolding p1 by simp
  qed
  show ?thesis using p1 p2 p3 by blast
qed

theorem pending_newest_first_witness:
  "distinct (map escalation_id [esc1, esc2])
 \<and> escalation_id ` set [esc1, esc2] \<inter> escalation_id ` set (escalations dash0) = {}
 \<and> escalations dash0 = []
 \<and> sorted_wrt (\<lambda>a b. created_at a \<le> created_at b) [esc1, esc2]
 \<and> pendingEscalations (foldl (onmessage None) dash0 (map NewEscalation [esc1, esc2]))
       = [esc2, esc1]
 \<and> sorted_wrt (\<lambda>a b. created_at b \<le> created_at a)
       (pendingEscalations (foldl (onmessage None) dash0 (map NewEscalation [esc1, esc2])))"
proof -
  have a: "distinct (map escalation_id [esc1, esc2])"
    by (simp add: esc1_def esc2_def)
  have b: "escalation_id ` set [esc1, esc2] \<inter> escalation_id ` set (escalations dash0) = {}"
    by (simp add: dash0_def)
  have c: "escalations dash0 = []" by (simp add: dash0_def)
  have d: "sorted_wrt (\<lambda>a b. created_at a \<le> created_at b) [esc1, esc2]"
    by (simp add: esc1_def esc2_def)
  have e: "filter (\<lambda>e. status e = Pending) (rev [esc1, esc2]) @ pendingEscalations dash0
             = [esc2, esc1]"
    by (simp add: pendingEscalations_def dash0_def esc1_def esc2_def)
  show ?thesis
    using a b c d e pending_newest_first [OF a b, of None] by simp
qed

section \<open>Properties of the submit handler\<close>

lemma strip_end_split:
  "rev (dropWhile P (rev xs)) @ rev (takeWhile P (rev xs)) = xs"
proof -
  have "rev (takeWhile P (rev xs) @ dropWhile P (rev xs)) = xs" by simp
  then show ?thesis by (simp only: rev_append)
qed

lemma trim_decomp:
  "\<exists>pre suf. t = pre @ trim t @ suf \<and> (\<forall>c \<in> set pre. js_whitespace c)
            \<and> (\<forall>c \<in> set suf. js_whitespace c)"
proof -
  define u where "u = dropWhile js_whitespace t"
  have t: "t = takeWhile js_whitespace t @ u"
    by (simp add: u_def)
  have u: "u = trim t @ rev (takeWhile js_whitespace (rev u))"
    unfolding trim_def u_def by (rule strip_end_split [symmetric])
  have p: "\<forall>c \<in> set (takeWhile js_whitespace t). js_whitespace c"
    by (auto dest: set_takeWhileD)
  have q: "\<forall>c \<in> set (rev (takeWhile js_whitespace (rev u))). js_whitespace c"
    by (auto dest: set_takeWhileD)
  have "t = takeWhile js_whitespace t @ trim t @ rev (takeWhile js_whitespace (rev u))"
    using t u by simp
  with p q show ?thesis by blast
qed

lemma trim_empty_iff: "trim t = [] \<longleftrightarrow> (\<forall>c \<in> set t. js_whitespace c)"
proof
  assume e: "trim t = []"
  obtain pre suf where "t = pre @ trim t @ suf" "\<forall>c \<in> set pre. js_whitespace c"
      "\<forall>c \<in> set suf. js_whitespace c"
    using trim_decomp by blast
  with e show "\<forall>c \<in> set t. js_whitespace c"
    by (metis UnE append_Nil set_append)
next
  assume "\<forall>c \<in> set t. js_whitespace c"
  then have d: "dropWhile js_whitespace t = []" by (simp only: dropWhile_eq_Nil_conv)
  show "trim t = []" unfolding trim_def d by simp
qed

lemma trim_last: "trim t \<noteq> [] \<Longrightarrow> \<not> js_whitespace (last (trim t))"
proof -
  assume n: "trim t \<noteq> []"
  let ?d = "dropWhile js_whitespace (rev (dropWhile js_whitespace t))"
  have "?d \<noteq> []" using n by (simp add: trim_def)
  then have "\<not> js_whitespace (hd ?d)" by (rule hd_dropWhile)
  moreover have "last (trim t) = hd ?d"
    using \<open>?d \<noteq> []\<close> by (simp add: trim_def last_rev)
  ultimately show ?thesis by simp
qed

lemma trim_hd: "trim t \<noteq> [] \<Longrightarrow> \<not> js_whitespace (hd (trim t))"
proof -
  assume n: "trim t \<noteq> []"
  let ?u = "dropWhile js_whitespace t"
  have u: "?u = trim t @ rev (takeWhile js_whitespace (rev ?u))"
    unfolding trim_def by (rule strip_end_split [symmetric])
  then have "?u \<noteq> []" using n by (metis append_is_Nil_conv)
  then have "\<not> js_whitespace (hd ?u)" by (rule hd_dropWhile)
  moreover have "hd ?u = hd (trim t)"
    using u n by (metis hd_append2)
  ultimately show ?thesis by simp
qed

lemma handleSubmitResponse_none:
  "selectedEscalation s = None \<Longrightarrow> handleSubmitResponse s rr pr = (s, [])"
  by (simp add: handleSubmitResponse_def)

lemma handleSubmitResponse_blank:
  "trim (responseText s) = [] \<Longrightarrow> handleSubmitResponse s rr pr = (s, [])"
  by (simp add: handleSubmitResponse_def split: option.splits)

lemma handleSubmitResponse_posts:
  assumes "Fetch (PostRespond i t) \<in> set (snd (handleSubmitResponse s rr pr))"
  shows "map_option escalation_id (selectedEscalation s) = Some i
       \<and> t = trim (responseText s) \<and> t \<noteq> []"
proof (cases "selectedEscalation s")
  case None
  then show ?thesis using assms by (simp add: handleSubmitResponse_none)
next
  case (Some sel)
  show ?thesis
  proof (cases "trim (responseText s) = []")
    case True
    then show ?thesis using assms by (simp add: handleSubmitResponse_blank)
  next
    case False
    then show ?thesis
      using assms Some
      by (cases rr; cases pr)
         (auto simp: handleSubmitResponse_def fetchPendingEscalations_def Let_def)
  qed
qed

text \<open>
  Claim C3, as stated, fails: the operator has \<open>E1\<close> selected and submits, the server
  rejects the submission. The console posts once and shows an alert with the server's
  text; it requests neither the escalation nor the pending list again, and the
  selected record is the stale pending one, not the existing resolution.
\<close>

theorem rejected_submit_counterexample:
  "handleSubmitResponse dash_sel (RespondRejected (Some ''Escalation already resolved''))
     (PendingData (Some [esc1_insight]))
   = (dash_sel, [Fetch (PostRespond ''E1'' ''approve''),
                 Alert ''Error: Escalation already resolved''])"
  by (simp add: handleSubmitResponse_def dash_sel_def error_text_def Let_def
        trim_def js_whitespace_def esc1_def)

text \<open>
  Claim C3, amended. When the submission is rejected, the console shows an alert
  with the server's \<open>detail\<close> (or a default text), issues no request after the
  submission itself, and leaves the list, the selected escalation and the typed text
  as they were, with \<open>isSubmitting\<close> cleared.
\<close>

theorem rejected_submit_alerts:
  assumes "selectedEscalation s = Some sel" and "trim (responseText s) \<noteq> []"
  shows "handleSubmitResponse s (RespondRejected detail) pr
         = (s\<lparr>isSubmitting := False\<rparr>,
            [Fetch (PostRespond (escalation_id sel) (trim (responseText s))),
             Alert (error_text detail)])"
  using assms by (simp add: handleSubmitResponse_def Let_def)

theorem rejected_submit_alerts_witness:
  "selectedEscalation dash_sel = Some esc1 \<and> trim (responseText dash_sel) \<noteq> []
 \<and> handleSubmitResponse dash_sel (RespondRejected None) PendingFails
     = (dash_sel, [Fetch (PostRespond ''E1'' ''approve''),
                   Alert ''Error: Failed to submit response''])"
proof -
  have a: "selectedEscalation dash_sel = Some esc1" by (simp add: dash_sel_def)
  have t: "trim (responseText dash_sel) = ''approve''"
    by (simp add: dash_sel_def trim_def js_whitespace_def)
  have b: "trim (responseText dash_sel) \<noteq> []" by (simp add: t)
  have c: "dash_sel\<lparr>isSubmitting := False\<rparr> = dash_sel" by (simp add: dash_sel_def)
  have d: "escalation_id esc1 = ''E1''" by (simp add: esc1_def)
  show ?thesis
    using a b rejected_submit_alerts [OF a b, of None PendingFails]
    by (simp add: t c d error_text_def)
qed

text \<open>
  Claim C10. \<open>handleSubmitResponse\<close> does nothing (no request, state unchanged) when no
  escalation is selected or the typed text consists of white space only, the empty
  text included. Whenever it posts a response, the posted id is the selected one and
  the posted text is the trimmed typed text: it is not empty, neither begins nor ends
  with white space, and the typed text is it between two runs of white space.
\<close>

theorem no_blank_submission:
  "(selectedEscalation s = None \<or> (\<forall>c \<in> set (responseText s). js_whitespace c) \<longrightarrow>
      handleSubmitResponse s rr pr = (s, []))
 \<and> (Fetch (PostRespond i t) \<in> set (snd (handleSubmitResponse s rr pr)) \<longrightarrow>
      map_option escalation_id (selectedEscalation s) = Some i
    \<and> t = trim (responseText s) \<and> t \<noteq> []
    \<and> \<not> js_whitespace (hd t) \<and> \<not> js_whitespace (last t)
    \<and> (\<exists>pre suf. responseText s = pre @ t @ suf
          \<and> (\<forall>c \<in> set pre. js_whitespace c) \<and> (\<forall>c \<in> set suf. js_whitespace c)))"
proof (intro conjI impI)
  assume "selectedEscalation s = None \<or> (\<forall>c \<in> set (responseText s). js_whitespace c)"
  then show "handleSubmitResponse s rr pr = (s, [])"
    using handleSubmitResponse_none handleSubmitResponse_blank trim_empty_iff by blast
next
  assume p: "Fetch (PostRespond i t) \<in> set (snd (handleSubmitResponse s rr pr))"
  note q = handleSubmitResponse_posts [OF p]
  have q1: "map_option escalation_id (selectedEscalation s) = Some i"
    and q2: "t = trim (responseText s)" and q3: "t \<noteq> []"
    using q by blast+
  show "map_option escalation_id (selectedEscalation s) = Some i" by (rule q1)
  show "t = trim (responseText s)" by (rule q2)
  show "t \<noteq> []" by (rule q3)
  show "\<not> js_whitespace (hd t)" using q3 trim_hd unfolding q2 by blast
  show "\<not> js_whitespace (last t)" using q3 trim_last unfolding q2 by blast
  show "\<exists>pre suf. responseText s = pre @ t @ suf
          \<and> (\<forall>c \<in> set pre. js_whitespace c) \<and> (\<forall>c \<in> set suf. js_whitespace c)"
    unfolding q2 by (rule trim_decomp)
qed

theorem no_blank_submission_witness:
  "responseText (dash_sel\<lparr>responseText := [CHR '' '', CHR 0x0A]\<rparr>) = [CHR '' '', CHR 0x0A]
 \<and> js_whitespace (CHR '' '') \<and> js_whitespace (CHR 0x0A)
 \<and> handleSubmitResponse (dash_sel\<lparr>responseText := [CHR '' '', CHR 0x0A]\<rparr>) RespondOk PendingFails
     = (dash_sel\<lparr>responseText := [CHR '' '', CHR 0x0A]\<rparr>, [])
 \<and> Fetch (PostRespond ''E1'' ''approve'')
     \<in> set (snd (handleSubmitResponse dash_sel RespondOk (PendingData None)))
 \<and> ''approve'' = trim (responseText dash_sel)
 \<and> \<not> js_whitespace (hd ''approve'') \<and> \<not> js_whitespace (last ''approve'')"
proof -
  have w: "js_whitespace (CHR '' '')" "js_whitespace (CHR 0x0A)"
    by (simp_all add: js_whitespace_def)
  have t: "responseText (dash_sel\<lparr>responseText := [CHR '' '', CHR 0x0A]\<rparr>)
             = [CHR '' '', CHR 0x0A]"
    by simp
  have a: "\<forall>c \<in> set (responseText (dash_sel\<lparr>responseText := [CHR '' '', CHR 0x0A]\<rparr>)).
             js_whitespace c"
    unfolding t using w by simp
  have b: "Fetch (PostRespond ''E1'' ''approve'')
     \<in> set (snd (handleSubmitResponse dash_sel RespondOk (PendingData None)))"
    by (simp add: handleSubmitResponse_def fetchPendingEscalations_def dash_sel_def Let_def
          trim_def js_whitespace_def esc1_def)
  have c: "handleSubmitResponse (dash_sel\<lparr>responseText := [CHR '' '', CHR 0x0A]\<rparr>)
             RespondOk PendingFails
           = (dash_sel\<lparr>responseText := [CHR '' '', CHR 0x0A]\<rparr>, [])"
    using a
      no_blank_submission [where s = "dash_sel\<lparr>responseText := [CHR '' '', CHR 0x0A]\<rparr>"
        and rr = RespondOk and pr = PendingFails]
    by blast
  have d: "''approve'' = trim (responseText dash_sel)
         \<and> \<not> js_whitespace (hd ''approve'') \<and> \<not> js_whitespace (last ''approve'')"
    using b
      no_blank_submission [where s = dash_sel and rr = RespondOk and pr = "PendingData None"
        and i = "''E1''" and t = "''approve''"]
    by blast
  show ?thesis
    using w t b c d by blast
qed

section \<open>Properties of the orchestrator\<close>

lemma respond_pending:
  assumes "store sys i = Some r" and "status r = Pending"
  shows "\<exists>sys1. respond sys i text now = Inr sys1
       \<and> store sys1 i = Some (r\<lparr>status := Resolved, human_response := Some text,
                                  responded_at := Some now\<rparr>)"
  using assms by (simp add: respond_def compareAndTransitionToResolved_def announce_def)

lemma respond_resolved:
  assumes "store sys i = Some r" and "status r = Resolved"
  shows "respond sys i text now = Inl AlreadyResolved"
  using assms by (simp add: respond_def compareAndTransitionToResolved_def)

lemma respond_all_resolved:
  assumes "store sys i = Some r" and "status r = Resolved"
  shows "respond_all sys i calls = (replicate (length calls) (Inl AlreadyResolved), sys)"
  using assms
  by (induction calls) (auto simp: respond_resolved)

text \<open>
  Claim C1. Take an escalation that is pending and any non-empty collection of
  \<open>respond\<close> calls on its id, in whatever order their atomic sections run. The first
  call in that order succeeds, every other call is answered \<open>AlreadyResolved\<close>, the
  final state is the state right after the successful call (the failed calls changed
  nothing), and the stored response is the text of the successful call.
\<close>

theorem respond_exactly_once:
  assumes "store sys i = Some r" and "status r = Pending" and "calls \<noteq> []"
  shows "\<exists>sys1. respond sys i (fst (hd calls)) (snd (hd calls)) = Inr sys1
       \<and> respond_all sys i calls
           = (Inr () # replicate (length calls - 1) (Inl AlreadyResolved), sys1)
       \<and> (\<exists>r'. store sys1 i = Some r' \<and> status r' = Resolved
              \<and> human_response r' = Some (fst (hd calls)))"
proof -
  obtain t0 now rest where c: "calls = (t0, now) # rest"
    using assms(3) by (cases calls) auto
  obtain sys1 where s1: "respond sys i t0 now = Inr sys1"
    and r1: "store sys1 i = Some (r\<lparr>status := Resolved, human_response := Some t0,
                                  responded_at := Some now\<rparr>)"
    using respond_pending [OF assms(1,2)] by blast
  have "respond_all sys1 i rest = (replicate (length rest) (Inl AlreadyResolved), sys1)"
    using r1 by (intro respond_all_resolved) auto
  then show ?thesis using s1 r1 by (simp add: c)
qed

theorem respond_exactly_once_witness:
  "store sys0 ''E1'' = Some esc1 \<and> status esc1 = Pending
 \<and> [(''approve'', ''2025-01-01T10:02:00''), (''deny'', ''2025-01-01T10:02:00'')] \<noteq> []
 \<and> fst (respond_all sys0 ''E1''
       [(''approve'', ''2025-01-01T10:02:00''), (''deny'', ''2025-01-01T10:02:00'')])
     = [Inr (), Inl AlreadyResolved]
 \<and> map_option human_response (store (snd (respond_all sys0 ''E1''
       [(''approve'', ''2025-01-01T10:02:00''), (''deny'', ''2025-01-01T10:02:00'')])) ''E1'')
     = Some (Some ''approve'')"
proof -
  have a: "store sys0 ''E1'' = Some esc1" by (simp add: sys0_def)
  have b: "status esc1 = Pending" by (simp add: esc1_def)
  have c: "[(''approve'', ''2025-01-01T10:02:00''), (''deny'', ''2025-01-01T10:02:00'')] \<noteq> []"
    by simp
  show ?thesis
    using a b respond_exactly_once [OF a b c] by auto
qed

lemma respond_as_steps:
  "respond sys i response now =
     (case compareAndTransitionToResolved (store sys) i response now of
        Inl e \<Rightarrow> Inl e
      | Inr st \<Rightarrow>
          Inr (foldl perform sys
                 [CompareAndTransition i response now, Broadcast ResolvedKind i,
                  Deliver i response]))"
  by (simp add: respond_def announce_def split: sum.splits option.splits)

lemma create_as_steps:
  "create sys newId now request =
     (let record = request\<lparr>escalation_id := newId, status := Pending, created_at := now,
                           human_response := None, responded_at := None,
                           ai_insights := None, insights_generated_at := None\<rparr>
      in case put (store sys) record of
           Inl e \<Rightarrow> Inl InvariantViolation
         | Inr st \<Rightarrow> Inr (foldl perform sys [Put record, Broadcast CreatedKind newId], newId))"
  by (simp add: create_def Let_def split: sum.splits)

lemma attachInsight_as_steps:
  "attachInsight sys i insight =
     (case attachInsight_store (store sys) i insight of
        Inl e \<Rightarrow> Inl e
      | Inr st \<Rightarrow> Inr (foldl perform sys [AttachInsight i insight, Broadcast InsightKind i]))"
  by (simp add: attachInsight_def split: sum.splits)

lemma store_perform_cong:
  "store a = store b \<Longrightarrow> store (perform a x) = store (perform b x)"
  by (cases x) (auto simp: announce_def split: sum.splits option.splits)

lemma store_run_cong:
  "store a = store b \<Longrightarrow> store (foldl tick a steps) = store (foldl tick b steps)"
proof (induction steps arbitrary: a b)
  case Nil
  then show ?case by simp
next
  case (Cons step steps)
  have "store (tick a step) = store (tick b step)"
  proof (cases step)
    case None
    then show ?thesis using Cons.prems by (simp add: tick_def)
  next
    case (Some x)
    then show ?thesis using store_perform_cong [OF Cons.prems, of x] by (simp add: tick_def)
  qed
  then have "store (foldl tick (tick a step) steps) = store (foldl tick (tick b step) steps)"
    by (rule Cons.IH)
  then show ?case by simp
qed

lemma await_timed_out_store:
  "await sys i steps = (TimedOut, sys') \<Longrightarrow> store sys' = store (foldl tick sys steps)"
proof (induction steps arbitrary: sys)
  case Nil
  then show ?case by auto
next
  case (Cons step steps)
  then show ?case
    by (auto simp: Let_def split: option.splits)
qed

lemma perform_status:
  assumes "store sys i = Some r"
  shows "\<exists>r'. store (perform sys x) i = Some r'
       \<and> status r' = (if status r = Pending \<and> transition_on i (Some x)
                       then Resolved else status r)"
proof (cases x)
  case (Put entry)
  then show ?thesis using assms by (auto simp: put_def split: option.splits)
next
  case (CompareAndTransition j response now)
  then show ?thesis
    using assms by (auto simp: compareAndTransitionToResolved_def split: option.splits)
next
  case (AttachInsight j insight)
  then show ?thesis
    using assms by (auto simp: attachInsight_store_def split: option.splits)
next
  case (Broadcast kind j)
  then show ?thesis using assms by (auto simp: announce_def split: option.splits)
next
  case (Deliver j response)
  then show ?thesis using assms by simp
qed

lemma tick_status:
  assumes "store sys i = Some r"
  shows "\<exists>r'. store (tick sys step) i = Some r'
       \<and> status r' = (if status r = Pending \<and> transition_on i step
                       then Resolved else status r)"
proof (cases step)
  case None
  then show ?thesis using assms by (simp add: tick_def)
next
  case (Some x)
  then show ?thesis using perform_status [OF assms, of x] by (simp add: tick_def)
qed

lemma run_status:
  assumes "store sys i = Some r"
  shows "\<exists>r'. store (foldl tick sys steps) i = Some r'
       \<and> status r' = (if status r = Pending \<and> \<not> list_ex (transition_on i) steps
                       then Pending else Resolved)"
  using assms
proof (induction steps arbitrary: sys r)
  case Nil
  then show ?case by (cases "status r") auto
next
  case (Cons step steps)
  obtain r1 where r1: "store (tick sys step) i = Some r1"
    and s1: "status r1 = (if status r = Pending \<and> transition_on i step
                          then Resolved else status r)"
    using tick_status [OF Cons.prems] by blast
  obtain r' where r': "store (foldl tick (tick sys step) steps) i = Some r'"
    and s': "status r' = (if status r1 = Pending \<and> \<not> list_ex (transition_on i) steps
                          then Pending else Resolved)"
    using Cons.IH [OF r1] by blast
  have "status r' = (if status r = Pending \<and> \<not> list_ex (transition_on i) (step # steps)
                     then Pending else Resolved)"
    using s1 s' by (cases "status r") auto
  then show ?case using r' by simp
qed

lemma await_resolved_example:
  "map_sum id fst (awaitResponse sys0 ''E2'' 3 env_race) = Inr (ResolvedWith ''ok'')"
  by (simp add: awaitResponse_def registerWaiter_def sys0_def env_race_def tick_def
        compareAndTransitionToResolved_def announce_def deliver_def esc2_def Let_def
        unregisterWaiter_def numeral_3_eq_3)

text \<open>
  Claim C7, as stated, fails. \<open>E2\<close> is pending when the agent calls
  \<open>awaitResponse\<close> with a timeout of one step. In that step an operator's \<open>respond\<close>
  runs its store transition; the timeout ends before the delivery. The agent gets
  \<open>TimedOut\<close>, the record is resolved, and a later \<open>respond\<close> is answered
  \<open>AlreadyResolved\<close>.
\<close>

theorem timed_out_resolved_counterexample:
  "get (store sys0) ''E2'' = Inr esc2 \<and> status esc2 = Pending
 \<and> awaitResponse sys0 ''E2'' 1 env_race = Inr (TimedOut, after_race)
 \<and> get (store after_race) ''E2'' = Inr esc2_resolved \<and> status esc2_resolved = Resolved
 \<and> respond after_race ''E2'' ''deny'' ''2025-01-01T10:01:09'' = Inl AlreadyResolved"
  by (simp add: get_def sys0_def esc2_def esc2_resolved_def after_race_def env_race_def
        awaitResponse_def registerWaiter_def tick_def unregisterWaiter_def
        compareAndTransitionToResolved_def respond_def Let_def)

text \<open>
  Claim C7, amended. Take an escalation that is pending when \<open>awaitResponse\<close> is
  called on it, and let the call return \<open>TimedOut\<close>. The wait itself changed nothing
  in the store: the store is what the steps of the other callers made of it. If no
  \<open>respond\<close> ran its store transition on that id during the wait, \<open>get\<close> still
  shows the escalation pending, and a later \<open>respond\<close> on it, with any text, succeeds
  and leaves it resolved with that text. If one did (its delivery did not reach the
  waiter in time), the escalation is resolved and a later \<open>respond\<close> is answered
  \<open>AlreadyResolved\<close>.
\<close>

theorem timed_out_await_store:
  assumes "store sys i = Some r" and "status r = Pending"
    and "awaitResponse sys i timeout env = Inr (TimedOut, sys')"
  shows "store sys' = store (foldl tick sys (take timeout env))
       \<and> (\<not> list_ex (transition_on i) (take timeout env) \<longrightarrow>
            (\<exists>r'. get (store sys') i = Inr r' \<and> status r' = Pending
               \<and> (\<exists>sys''. respond sys' i response now = Inr sys''
                    \<and> (\<exists>r''. get (store sys'') i = Inr r'' \<and> status r'' = Resolved
                           \<and> human_response r'' = Some response))))
       \<and> (list_ex (transition_on i) (take timeout env) \<longrightarrow>
            (\<exists>r'. get (store sys') i = Inr r' \<and> status r' = Resolved)
          \<and> respond sys' i response now = Inl AlreadyResolved)"
proof -
  from assms(3) obtain reg where
    run: "await (sys\<lparr>waiters := reg\<rparr>) i (take timeout env) = (TimedOut, sys')"
    by (auto simp: awaitResponse_def split: sum.splits)
  have "store sys' = store (foldl tick (sys\<lparr>waiters := reg\<rparr>) (take timeout env))"
    using run by (rule await_timed_out_store)
  also have "\<dots> = store (foldl tick sys (take timeout env))"
    by (rule store_run_cong) simp
  finally have st: "store sys' = store (foldl tick sys (take timeout env))" .
  obtain r' where r': "store sys' i = Some r'"
    and s': "status r' = (if \<not> list_ex (transition_on i) (take timeout env)
                          then Pending else Resolved)"
    using run_status [OF assms(1), of "take timeout env"] assms(2) st by auto
  have quiet: "\<exists>r'. get (store sys') i = Inr r' \<and> status r' = Pending
               \<and> (\<exists>sys''. respond sys' i response now = Inr sys''
                    \<and> (\<exists>r''. get (store sys'') i = Inr r'' \<and> status r'' = Resolved
                           \<and> human_response r'' = Some response))"
    if q: "\<not> list_ex (transition_on i) (take timeout env)"
  proof -
    have p: "status r' = Pending" using s' q by simp
    obtain sys'' where "respond sys' i response now = Inr sys''"
      and "store sys'' i = Some (r'\<lparr>status := Resolved, human_response := Some response,
                                     responded_at := Some now\<rparr>)"
      using respond_pending [OF r' p] by blast
    then show ?thesis using r' p by (auto simp: get_def)
  qed
  have raced: "(\<exists>r'. get (store sys') i = Inr r' \<and> status r' = Resolved)
          \<and> respond sys' i response now = Inl AlreadyResolved"
    if q: "list_ex (transition_on i) (take timeout env)"
  proof -
    have p: "status r' = Resolved" using s' q by simp
    show ?thesis
      using r' p respond_resolved [OF r' p] by (auto simp: get_def)
  qed
  show ?thesis using st quiet raced by blast
qed

theorem timed_out_await_store_witness:
  "store sys0 ''E2'' = Some esc2 \<and> status esc2 = Pending
 \<and> \<not> list_ex (transition_on ''E2'') (take 2 env0)
 \<and> list_ex (transition_on ''E2'') (take 1 env_race)
 \<and> (\<exists>sys'. awaitResponse sys0 ''E2'' 2 env0 = Inr (TimedOut, sys')
      \<and> (\<exists>r'. get (store sys') ''E2'' = Inr r' \<and> status r' = Pending)
      \<and> (\<exists>sys''. respond sys' ''E2'' ''ok'' ''2025-01-01T10:01:02'' = Inr sys''
            \<and> (\<exists>r''. get (store sys'') ''E2'' = Inr r'' \<and> status r'' = Resolved
                   \<and> human_response r'' = Some ''ok'')))
 \<and> (\<exists>sys'. awaitResponse sys0 ''E2'' 1 env_race = Inr (TimedOut, sys')
      \<and> (\<exists>r'. get (store sys') ''E2'' = Inr r' \<and> status r' = Resolved)
      \<and> respond sys' ''E2'' ''deny'' ''2025-01-01T10:01:09'' = Inl AlreadyResolved)"
proof -
  have a: "store sys0 ''E2'' = Some esc2" by (simp add: sys0_def)
  have b: "status esc2 = Pending" by (simp add: esc2_def)
  have q: "\<not> list_ex (transition_on ''E2'') (take 2 env0)"
    by (simp add: env0_def numeral_2_eq_2)
  have p: "list_ex (transition_on ''E2'') (take 1 env_race)"
    by (simp add: env_race_def)
  have "\<exists>sys'. awaitResponse sys0 ''E2'' 2 env0 = Inr (TimedOut, sys')"
    by (simp add: awaitResponse_def registerWaiter_def sys0_def env0_def tick_def
          compareAndTransitionToResolved_def esc1_def Let_def numeral_2_eq_2)
  then obtain sysA where c: "awaitResponse sys0 ''E2'' 2 env0 = Inr (TimedOut, sysA)"
    by blast
  have "\<exists>sys'. awaitResponse sys0 ''E2'' 1 env_race = Inr (TimedOut, sys')"
    by (simp add: awaitResponse_def registerWaiter_def sys0_def env_race_def tick_def
          compareAndTransitionToResolved_def esc2_def Let_def)
  then obtain sysB where d: "awaitResponse sys0 ''E2'' 1 env_race = Inr (TimedOut, sysB)"
    by blast
  have one: "(\<exists>r'. get (store sysA) ''E2'' = Inr r' \<and> status r' = Pending)
      \<and> (\<exists>sys''. respond sysA ''E2'' ''ok'' ''2025-01-01T10:01:02'' = Inr sys''
            \<and> (\<exists>r''. get (store sys'') ''E2'' = Inr r'' \<and> status r'' = Resolved
                   \<and> human_response r'' = Some ''ok''))"
    using q timed_out_await_store [OF a b c, of "''ok''" "''2025-01-01T10:01:02''"]
    by blast
  have two: "(\<exists>r'. get (store sysB) ''E2'' = Inr r' \<and> status r' = Resolved)
      \<and> respond sysB ''E2'' ''deny'' ''2025-01-01T10:01:09'' = Inl AlreadyResolved"
    using p timed_out_await_store [OF a b d, of "''deny''" "''2025-01-01T10:01:09''"]
    by blast
  show ?thesis
    using a b q p c d one two by blast
qed

end
